theory Spec2Isabelle
  imports Main "HOL-Library.Word"
begin

section \<open>Machine types and the option structure\<close>

text \<open>
  The program is C for an LP64 Unix (OpenBSD/amd64, Linux/x86-64): \<open>size_t\<close> and
  \<open>rlim_t\<close> are unsigned 64-bit integers, whose arithmetic wraps around, and \<open>int\<close>
  is 32 bits wide. Return codes and file offsets (\<open>off_t\<close>) only ever hold 0, -1 and
  offsets below \<open>2 ^ 63\<close>; they are modelled as \<open>int\<close>, the range check of \<open>lseek\<close>
  written out.
\<close>

type_synonym byte = "8 word"
type_synonym size_t = "64 word"
type_synonym rlim_t = "64 word"

text \<open>\<open>struct shred_opts\<close>, field by field (the source spells \<open>interations\<close>).\<close>

record shred_opts =
  blocks :: size_t
  block_len :: size_t
  safe :: "32 word"
  verbose :: "32 word"
  recursive :: "32 word"
  interations :: "32 word"

text \<open>
  An unsigned integer division by zero is undefined behaviour in C; on the target
  machines the process is killed by the signal SIGFPE. It is the only way the modelled
  functions can fail to return.
\<close>

datatype fault = DivByZero

section \<open>The operating system\<close>

text \<open>
  What the kernel and the allocator answer is not decided by the program. It is given
  by an environment: each answer is indexed by the number of earlier calls of the same
  kind, so any pattern of failures can be written down.
  \<^item> \<open>open_ok\<close>: whether \<open>open(path, O_RDWR)\<close> of the target succeeds;
  \<^item> \<open>rlimit_data\<close>: \<open>None\<close> when \<open>getrlimit(RLIMIT_DATA)\<close> fails, else \<open>rlim_cur\<close>;
  \<^item> \<open>lseek_ok i\<close>: whether the \<open>i\<close>-th \<open>lseek\<close> on the target succeeds;
  \<^item> \<open>write_res i\<close>: \<open>None\<close> when the \<open>i\<close>-th \<open>write\<close> to the target fails, else
    the largest number of bytes the kernel accepts (a short write when less than asked);
  \<^item> \<open>malloc_ok i\<close>: whether the \<open>malloc\<close> of the \<open>i\<close>-th \<open>readin\<close> call succeeds;
  \<^item> \<open>malloc_junk i\<close>: the bytes the fresh, uninitialised buffer happens to hold;
  \<^item> \<open>urandom_open_ok i\<close>: whether the random device can be opened in that call;
  \<^item> \<open>urandom_read i\<close>: \<open>None\<close> when the \<open>read\<close> fails, else the bytes it delivers
    (fewer than asked for in a short read).
\<close>

record os_env =
  open_ok :: bool
  rlimit_data :: "rlim_t option"
  lseek_ok :: "nat \<Rightarrow> bool"
  write_res :: "nat \<Rightarrow> nat option"
  malloc_ok :: "nat \<Rightarrow> bool"
  malloc_junk :: "nat \<Rightarrow> byte list"
  urandom_open_ok :: "nat \<Rightarrow> bool"
  urandom_read :: "nat \<Rightarrow> byte list option"

text \<open>
  The state the program acts on: the target file's bytes, the offset and the state of
  the descriptor \<open>fildes\<close>, the number of live heap buffers, and how many \<open>lseek\<close>,
  \<open>write\<close> and \<open>readin\<close> calls have been made so far. Diagnostic output
  (\<open>fprintf\<close>) is not part of the state.
\<close>

record world =
  fdata :: "byte list"
  fpos :: nat
  fd_open :: bool
  heap_live :: nat
  n_lseek :: nat
  n_write :: nat
  n_readin :: nat

datatype whence = SEEK_SET | SEEK_CUR | SEEK_END

text \<open>\<open>open(path, O_RDWR)\<close>: a fresh descriptor starts at offset 0.\<close>

definition sys_open :: "os_env \<Rightarrow> world \<Rightarrow> world \<times> bool" where
  "sys_open env w =
     (if open_ok env then (w\<lparr>fd_open := True, fpos := 0\<rparr>, True) else (w, False))"

definition sys_close :: "world \<Rightarrow> world" where
  "sys_close w = w\<lparr>fd_open := False\<rparr>"

text \<open>
  \<open>lseek(fildes, off, whence)\<close>: the new offset, or -1 with the offset unchanged
  when the call fails, the result would be negative (EINVAL) or it does not fit
  \<open>off_t\<close> (EOVERFLOW).
\<close>

definition sys_lseek :: "os_env \<Rightarrow> world \<Rightarrow> int \<Rightarrow> whence \<Rightarrow> world \<times> int" where
  "sys_lseek env w off wh =
     (let w1 = w\<lparr>n_lseek := Suc (n_lseek w)\<rparr>;
          base = (case wh of SEEK_SET \<Rightarrow> 0
                  | SEEK_CUR \<Rightarrow> int (fpos w)
                  | SEEK_END \<Rightarrow> int (length (fdata w)));
          new = base + off
      in if lseek_ok env (n_lseek w) \<and> 0 \<le> new \<and> new < 2 ^ 63
         then (w1\<lparr>fpos := nat new\<rparr>, new)
         else (w1, - 1))"

text \<open>Storing bytes at an offset of a file; a gap past the end reads as zeros.\<close>

definition put_bytes :: "nat \<Rightarrow> byte list \<Rightarrow> byte list \<Rightarrow> byte list" where
  "put_bytes p bs d =
     take p (d @ replicate (p - length d) 0) @ bs @ drop (p + length bs) d"

text \<open>
  \<open>write(fildes, buf, count)\<close>. The buffer is a pointer: \<open>None\<close> is the null
  pointer, from which the kernel cannot copy a single byte, so a write of one byte or
  more from it fails with EFAULT: nothing is written and the offset stays. Otherwise
  the kernel writes as many of the \<open>count\<close> bytes as \<open>write_res\<close> allows at the
  current offset and advances the offset by that number.
\<close>

definition sys_write :: "os_env \<Rightarrow> world \<Rightarrow> byte list option \<Rightarrow> size_t \<Rightarrow> world \<times> int" where
  "sys_write env w buf count =
     (let w1 = w\<lparr>n_write := Suc (n_write w)\<rparr> in
      if count = 0 then (w1, 0)
      else (case buf of
              None \<Rightarrow> (w1, - 1)
            | Some bs \<Rightarrow>
                (case write_res env (n_write w) of
                   None \<Rightarrow> (w1, - 1)
                 | Some m \<Rightarrow>
                     (let out = take (min m (unat count)) bs
                      in (w1\<lparr>fdata := put_bytes (fpos w) out (fdata w),
                              fpos := fpos w + length out\<rparr>,
                          int (length out))))))"

section \<open>The program\<close>

text \<open>A buffer of exactly \<open>n\<close> bytes holding whatever the heap held.\<close>

definition fresh_buf :: "nat \<Rightarrow> byte list \<Rightarrow> byte list" where
  "fresh_buf n junk = take n (junk @ replicate (n - length junk) 0)"

text \<open>
  \<open>readin("/dev/urandom", len)\<close>, the only call of \<open>readin\<close>. It returns the null
  pointer only when \<open>malloc\<close> fails. When the device cannot be opened or the read
  fails, the source jumps to \<open>fail:\<close>, which ends in \<open>return buf\<close>: the buffer comes
  back as \<open>malloc\<close> left it. A read of fewer bytes than asked for is not looked at
  (\<open>read(...) < 0\<close> is the only test): the rest of the buffer stays as it was.
\<close>

definition readin :: "os_env \<Rightarrow> world \<Rightarrow> size_t \<Rightarrow> world \<times> byte list option" where
  "readin env w len =
     (let i = n_readin w;
          w1 = w\<lparr>n_readin := Suc i\<rparr>
      in if malloc_ok env i then
           (let buf = fresh_buf (unat len) (malloc_junk env i);
                w2 = w1\<lparr>heap_live := Suc (heap_live w1)\<rparr>
            in if urandom_open_ok env i then
                 (case urandom_read env i of
                    None \<Rightarrow> (w2, Some buf)
                  | Some bs \<Rightarrow>
                      (let got = take (unat len) bs
                       in (w2, Some (got @ drop (length got) buf))))
               else (w2, Some buf))
         else (w1, None))"

text \<open>
  \<open>getblocks\<close>. The two divisions are guarded by nothing in the source; the model
  returns \<open>Inl DivByZero\<close> where the divisor is zero. \<open>rlim_cur / len + 1\<close> is
  computed in 64 bits and wraps.
\<close>

definition getblocks :: "os_env \<Rightarrow> shred_opts \<Rightarrow> size_t \<Rightarrow> fault + shred_opts" where
  "getblocks env opts len =
     (let opts1 = opts\<lparr>blocks := len, block_len := 1\<rparr> in
      if safe opts1 = 0 then
        (case rlimit_data env of
           None \<Rightarrow> Inr (opts1\<lparr>safe := 1, blocks := len, block_len := 1\<rparr>)
         | Some rlim_cur \<Rightarrow>
             if len = 0 then Inl DivByZero
             else
               (let opts2 = opts1\<lparr>blocks := rlim_cur div len + 1\<rparr> in
                if blocks opts2 = 0 then Inl DivByZero
                else
                  (let opts3 = opts2\<lparr>block_len := len div blocks opts2\<rparr> in
                   if block_len opts3 \<le> 0
                   then Inr (opts3\<lparr>blocks := 1, block_len := len\<rparr>)
                   else Inr opts3)))
      else Inr opts1)"

text \<open>
  The body of the inner loop of \<open>doshred\<close>: the write from the null pointer, the
  random buffer, the write of the buffer, \<open>memset\<close> and \<open>free\<close>. The results of
  both writes are ignored, as in the source. \<open>False\<close> is the jump to \<open>fail:\<close>.
\<close>

definition shred_block :: "os_env \<Rightarrow> shred_opts \<Rightarrow> world \<Rightarrow> world \<times> bool" where
  "shred_block env opts w =
     (let w1 = fst (sys_write env w None (block_len opts)) in
      case readin env w1 (block_len opts) of
        (w2, None) \<Rightarrow> (w2, False)
      | (w2, Some randbuf) \<Rightarrow>
          (let w3 = fst (sys_write env w2 (Some randbuf) (block_len opts))
           in (w3\<lparr>heap_live := heap_live w3 - 1\<rparr>, True)))"

text \<open>
  \<open>for (size_t k = 0; k < opts->blocks; k++)\<close>. The counter stays below
  \<open>blocks\<close>, so it cannot wrap and is a natural number here.
\<close>

function blocks_loop :: "os_env \<Rightarrow> shred_opts \<Rightarrow> world \<Rightarrow> nat \<Rightarrow> world \<times> bool" where
  "blocks_loop env opts w k =
     (if k < unat (blocks opts) then
        (case shred_block env opts w of
           (w', False) \<Rightarrow> (w', False)
         | (w', True) \<Rightarrow> blocks_loop env opts w' (Suc k))
      else (w, True))"
  by pat_completeness auto
termination
  by (relation "measure (\<lambda>(env, opts, w, k). unat (blocks opts) - k)") auto

text \<open>
  \<open>for (int i = 0; i < loops; i++)\<close>: the seek to offset 0, whose failure is only
  reported, then the blocks.
\<close>

function passes_loop :: "os_env \<Rightarrow> shred_opts \<Rightarrow> world \<Rightarrow> int \<Rightarrow> int \<Rightarrow> world \<times> bool" where
  "passes_loop env opts w i loops =
     (if i < loops then
        (let w1 = fst (sys_lseek env w 0 SEEK_SET) in
         case blocks_loop env opts w1 0 of
           (w', False) \<Rightarrow> (w', False)
         | (w', True) \<Rightarrow> passes_loop env opts w' (i + 1) loops)
      else (w, True))"
  by pat_completeness auto
termination
  by (relation "measure (\<lambda>(env, opts, w, i, loops). nat (loops - i))") auto

text \<open>
  \<open>doshred\<close>. At \<open>fail:\<close> the pointer \<open>randbuf\<close> is null (that is why the jump
  was taken), so the \<open>free\<close> there never runs.
\<close>

definition doshred ::
  "os_env \<Rightarrow> shred_opts \<Rightarrow> world \<Rightarrow> int \<Rightarrow> size_t \<Rightarrow> fault + (world \<times> shred_opts \<times> int)" where
  "doshred env opts w loops len =
     (case getblocks env opts len of
        Inl f \<Rightarrow> Inl f
      | Inr opts' \<Rightarrow>
          (case passes_loop env opts' w 0 loops of
             (w', True) \<Rightarrow> Inr (w', opts', 0)
           | (w', False) \<Rightarrow> Inr (w', opts', - 1)))"

text \<open>\<open>getfildeslen\<close>: the length of the file, or -1; three seeks.\<close>

definition getfildeslen :: "os_env \<Rightarrow> world \<Rightarrow> world \<times> int" where
  "getfildeslen env w =
     (case sys_lseek env w 0 SEEK_CUR of
        (w1, pos) \<Rightarrow>
          if pos < 0 then (w1, - 1)
          else
            (case sys_lseek env w1 0 SEEK_END of
               (w2, len) \<Rightarrow>
                 if len < 0 then (w2, - 1)
                 else
                   (case sys_lseek env w2 pos SEEK_SET of
                      (w3, r) \<Rightarrow> if r < 0 then (w3, - 1) else (w3, len))))"

text \<open>
  \<open>fileshred\<close>. The number of passes handed to \<open>doshred\<close> is the literal 3. The
  return after a failed \<open>getfildeslen\<close> does not close the descriptor.
\<close>

definition fileshred ::
  "os_env \<Rightarrow> shred_opts \<Rightarrow> world \<Rightarrow> fault + (world \<times> shred_opts \<times> int)" where
  "fileshred env opts w =
     (case sys_open env w of
        (w1, False) \<Rightarrow> Inr (w1, opts, - 1)
      | (w1, True) \<Rightarrow>
          (case getfildeslen env w1 of
             (w2, len) \<Rightarrow>
               if len < 0 then Inr (w2, opts, - 1)
               else
                 (case doshred env opts w2 3 (word_of_int len) of
                    Inl f \<Rightarrow> Inl f
                  | Inr (w3, opts', rc) \<Rightarrow>
                      if rc < 0 then Inr (sys_close w3, opts', - 1)
                      else Inr (sys_close w3, opts', 0))))"

section \<open>Concrete inputs\<close>

text \<open>The options \<open>main\<close> sets; the two plan fields are not initialised there.\<close>

definition default_opts :: shred_opts where
  "default_opts =
     \<lparr>blocks = 0, block_len = 0, safe = 0, verbose = 0, recursive = 0, interations = 3\<rparr>"

text \<open>
  An operating system on which every call succeeds in full: a data limit of 1024
  bytes, and a random device that delivers the byte \<open>0x7F\<close> over and over.
\<close>

definition good_env :: os_env where
  "good_env =
     \<lparr>open_ok = True, rlimit_data = Some 1024, lseek_ok = (\<lambda>i. True),
      write_res = (\<lambda>i. Some 64), malloc_ok = (\<lambda>i. True),
      malloc_junk = (\<lambda>i. [0x55, 0x55, 0x55, 0x55]),
      urandom_open_ok = (\<lambda>i. True),
      urandom_read = (\<lambda>i. Some [0x7F, 0x7F, 0x7F, 0x7F])\<rparr>"

text \<open>A closed target file with the given contents, before anything has run.\<close>

definition file_world :: "byte list \<Rightarrow> world" where
  "file_world d =
     \<lparr>fdata = d, fpos = 0, fd_open = False, heap_live = 0,
      n_lseek = 0, n_write = 0, n_readin = 0\<rparr>"

section \<open>One system call, one block\<close>

declare blocks_loop.simps [simp del] passes_loop.simps [simp del]

lemma length_put_bytes:
  "p + length bs \<le> length d \<Longrightarrow> length (put_bytes p bs d) = length d"
  by (simp add: put_bytes_def)

lemma sys_write_counters:
  "n_write (fst (sys_write env w buf c)) = Suc (n_write w)"
  "n_lseek (fst (sys_write env w buf c)) = n_lseek w"
  "n_readin (fst (sys_write env w buf c)) = n_readin w"
  "heap_live (fst (sys_write env w buf c)) = heap_live w"
  "fd_open (fst (sys_write env w buf c)) = fd_open w"
  by (simp_all add: sys_write_def Let_def split: option.splits)

lemma sys_write_null:
  "fdata (fst (sys_write env w None c)) = fdata w"
  "fpos (fst (sys_write env w None c)) = fpos w"
  by (simp_all add: sys_write_def Let_def)

lemma sys_write_length:
  assumes "fpos w + unat c \<le> length (fdata w)"
  shows "length (fdata (fst (sys_write env w buf c))) = length (fdata w)"
    and "fpos (fst (sys_write env w buf c)) \<le> fpos w + unat c"
  using assms
  by (auto simp add: sys_write_def Let_def length_put_bytes split: option.splits)

lemma readin_fields:
  "n_readin (fst (readin env w len)) = Suc (n_readin w)"
  "n_write (fst (readin env w len)) = n_write w"
  "n_lseek (fst (readin env w len)) = n_lseek w"
  "fdata (fst (readin env w len)) = fdata w"
  "fpos (fst (readin env w len)) = fpos w"
  "fd_open (fst (readin env w len)) = fd_open w"
  "heap_live (fst (readin env w len)) =
     (if malloc_ok env (n_readin w) then Suc (heap_live w) else heap_live w)"
  by (simp_all add: readin_def Let_def split: option.splits)

lemma readin_null:
  "(snd (readin env w len) = None) = (\<not> malloc_ok env (n_readin w))"
  by (simp add: readin_def Let_def split: option.splits)


lemma shred_block_fail:
  "\<not> malloc_ok env (n_readin w) \<Longrightarrow>
   shred_block env opts w = (w\<lparr>n_write := Suc (n_write w), n_readin := Suc (n_readin w)\<rparr>, False)"
  by (simp add: shred_block_def readin_def sys_write_def Let_def)

lemma shred_block_ok:
  "malloc_ok env (n_readin w) \<Longrightarrow>
   shred_block env opts w =
     (let w1 = fst (sys_write env w None (block_len opts));
          w2 = fst (readin env w1 (block_len opts));
          w3 = fst (sys_write env w2 (snd (readin env w1 (block_len opts))) (block_len opts))
      in (w3\<lparr>heap_live := heap_live w3 - 1\<rparr>, True))"
  by (simp add: shred_block_def readin_def sys_write_counters Let_def split: option.splits)

lemma shred_block_flag:
  "snd (shred_block env opts w) = malloc_ok env (n_readin w)"
  by (cases "malloc_ok env (n_readin w)") (simp_all add: shred_block_fail shred_block_ok Let_def)

lemma shred_block_counters:
  "n_readin (fst (shred_block env opts w)) = Suc (n_readin w)"
  "n_write (fst (shred_block env opts w)) =
     (if malloc_ok env (n_readin w) then n_write w + 2 else n_write w + 1)"
  "n_lseek (fst (shred_block env opts w)) = n_lseek w"
  "heap_live (fst (shred_block env opts w)) = heap_live w"
  "fd_open (fst (shred_block env opts w)) = fd_open w"
  by (cases "malloc_ok env (n_readin w)";
      simp add: shred_block_fail shred_block_ok Let_def readin_fields sys_write_counters)+

lemma shred_block_length:
  assumes "fpos w + unat (block_len opts) \<le> length (fdata w)"
  shows "length (fdata (fst (shred_block env opts w))) = length (fdata w)"
    and "fpos (fst (shred_block env opts w)) \<le> fpos w + unat (block_len opts)"
proof -
  let ?w1 = "fst (sys_write env w None (block_len opts))"
  let ?w2 = "fst (readin env ?w1 (block_len opts))"
  have d: "fdata ?w2 = fdata w" "fpos ?w2 = fpos w"
    by (simp_all add: readin_fields sys_write_null)
  have pre: "fpos ?w2 + unat (block_len opts) \<le> length (fdata ?w2)"
    using assms by (simp only: d)
  note wl = sys_write_length [OF pre, of env "snd (readin env ?w1 (block_len opts))", unfolded d]
  show "length (fdata (fst (shred_block env opts w))) = length (fdata w)"
    using wl(1)
    by (cases "malloc_ok env (n_readin w)") (simp_all add: shred_block_fail shred_block_ok Let_def)
  show "fpos (fst (shred_block env opts w)) \<le> fpos w + unat (block_len opts)"
    using wl(2)
    by (cases "malloc_ok env (n_readin w)") (simp_all add: shred_block_fail shred_block_ok Let_def)
qed


section \<open>The two loops\<close>

lemma blocks_loop_done:
  "\<not> k < unat (blocks opts) \<Longrightarrow> blocks_loop env opts w k = (w, True)"
  by (simp add: blocks_loop.simps)

lemma blocks_loop_abort:
  "k < unat (blocks opts) \<Longrightarrow> \<not> malloc_ok env (n_readin w) \<Longrightarrow>
   blocks_loop env opts w k = (fst (shred_block env opts w), False)"
  by (subst blocks_loop.simps) (simp add: shred_block_fail)

lemma blocks_loop_step:
  "k < unat (blocks opts) \<Longrightarrow> malloc_ok env (n_readin w) \<Longrightarrow>
   blocks_loop env opts w k = blocks_loop env opts (fst (shred_block env opts w)) (Suc k)"
  by (subst blocks_loop.simps) (simp add: shred_block_ok Let_def)

lemma blocks_loop_frame:
  "n_lseek (fst (blocks_loop env opts w k)) = n_lseek w \<and>
   heap_live (fst (blocks_loop env opts w k)) = heap_live w \<and>
   fd_open (fst (blocks_loop env opts w k)) = fd_open w"
proof (induction n \<equiv> "unat (blocks opts) - k" arbitrary: w k)
  case 0
  then show ?case by (simp add: blocks_loop_done)
next
  case (Suc n)
  then have k: "k < unat (blocks opts)" and n: "n = unat (blocks opts) - Suc k" by simp_all
  show ?case
  proof (cases "malloc_ok env (n_readin w)")
    case True
    then show ?thesis
      using Suc.hyps(1) [OF n, of "fst (shred_block env opts w)"]
      by (simp add: blocks_loop_step [OF k True] shred_block_counters)
  next
    case False
    then show ?thesis
      by (simp add: blocks_loop_abort [OF k False] shred_block_counters)
  qed
qed

lemma blocks_loop_all_ok:
  "(\<And>j. j < unat (blocks opts) - k \<Longrightarrow> malloc_ok env (n_readin w + j)) \<Longrightarrow>
   snd (blocks_loop env opts w k) \<and>
   n_readin (fst (blocks_loop env opts w k)) = n_readin w + (unat (blocks opts) - k) \<and>
   n_write (fst (blocks_loop env opts w k)) = n_write w + 2 * (unat (blocks opts) - k)"
proof (induction n \<equiv> "unat (blocks opts) - k" arbitrary: w k)
  case 0
  then show ?case by (simp add: blocks_loop_done)
next
  case (Suc n)
  then have k: "k < unat (blocks opts)" and n: "n = unat (blocks opts) - Suc k" by simp_all
  have ok: "malloc_ok env (n_readin w)"
    using Suc.prems [of 0] k by simp
  have rest: "malloc_ok env (n_readin (fst (shred_block env opts w)) + j)"
    if "j < unat (blocks opts) - Suc k" for j
    using Suc.prems [of "Suc j"] that by (simp add: shred_block_counters)
  have split: "unat (blocks opts) - k = Suc (unat (blocks opts) - Suc k)"
    using k by arith
  show ?case
    using Suc.hyps(1) [OF n rest] ok
    by (simp add: blocks_loop_step [OF k ok] shred_block_counters split)
qed

lemma blocks_loop_first_fail:
  "j < unat (blocks opts) - k \<Longrightarrow>
   (\<And>i. i < j \<Longrightarrow> malloc_ok env (n_readin w + i)) \<Longrightarrow>
   \<not> malloc_ok env (n_readin w + j) \<Longrightarrow>
   \<not> snd (blocks_loop env opts w k) \<and>
   n_readin (fst (blocks_loop env opts w k)) = n_readin w + j + 1 \<and>
   n_write (fst (blocks_loop env opts w k)) = n_write w + 2 * j + 1"
proof (induction j arbitrary: w k)
  case 0
  then have k: "k < unat (blocks opts)" and bad: "\<not> malloc_ok env (n_readin w)" by simp_all
  show ?case
    using bad by (simp add: blocks_loop_abort [OF k bad] shred_block_counters)
next
  case (Suc j)
  then have k: "k < unat (blocks opts)" by simp
  have ok: "malloc_ok env (n_readin w)"
    using Suc.prems(2) [of 0] by simp
  let ?w = "fst (shred_block env opts w)"
  have a: "j < unat (blocks opts) - Suc k" using Suc.prems(1) by simp
  have b: "malloc_ok env (n_readin ?w + i)" if "i < j" for i
    using Suc.prems(2) [of "Suc i"] that by (simp add: shred_block_counters)
  have c: "\<not> malloc_ok env (n_readin ?w + j)"
    using Suc.prems(3) by (simp add: shred_block_counters)
  show ?case
    using Suc.IH [OF a b c] ok
    by (simp add: blocks_loop_step [OF k ok] shred_block_counters)
qed

lemma blocks_loop_length:
  "fpos w + (unat (blocks opts) - k) * unat (block_len opts) \<le> length (fdata w) \<Longrightarrow>
   length (fdata (fst (blocks_loop env opts w k))) = length (fdata w)"
proof (induction n \<equiv> "unat (blocks opts) - k" arbitrary: w k)
  case 0
  then show ?case by (simp add: blocks_loop_done)
next
  case (Suc n)
  then have k: "k < unat (blocks opts)" and n: "n = unat (blocks opts) - Suc k" by simp_all
  have one: "fpos w + unat (block_len opts) \<le> length (fdata w)"
    using Suc.prems Suc.hyps(2) [symmetric] by simp
  note sb = shred_block_length [OF one, of env]
  show ?case
  proof (cases "malloc_ok env (n_readin w)")
    case True
    have "fpos (fst (shred_block env opts w)) + (unat (blocks opts) - Suc k) * unat (block_len opts)
          \<le> length (fdata (fst (shred_block env opts w)))"
      using Suc.prems Suc.hyps(2) [symmetric] sb n by simp
    from Suc.hyps(1) [OF n this] show ?thesis
      by (simp add: blocks_loop_step [OF k True] sb)
  next
    case False
    then show ?thesis
      by (simp add: blocks_loop_abort [OF k False] sb)
  qed
qed

lemma sys_lseek_fields:
  "n_lseek (fst (sys_lseek env w off wh)) = Suc (n_lseek w)"
  "n_write (fst (sys_lseek env w off wh)) = n_write w"
  "n_readin (fst (sys_lseek env w off wh)) = n_readin w"
  "heap_live (fst (sys_lseek env w off wh)) = heap_live w"
  "fd_open (fst (sys_lseek env w off wh)) = fd_open w"
  "fdata (fst (sys_lseek env w off wh)) = fdata w"
  by (simp_all add: sys_lseek_def Let_def)

lemma sys_lseek_rewind:
  "lseek_ok env (n_lseek w) \<Longrightarrow> fpos (fst (sys_lseek env w 0 SEEK_SET)) = 0"
  by (simp add: sys_lseek_def Let_def)

lemma passes_loop_done:
  "\<not> i < loops \<Longrightarrow> passes_loop env opts w i loops = (w, True)"
  by (simp add: passes_loop.simps)

lemma passes_loop_abort:
  "i < loops \<Longrightarrow> \<not> snd (blocks_loop env opts (fst (sys_lseek env w 0 SEEK_SET)) 0) \<Longrightarrow>
   passes_loop env opts w i loops =
     (fst (blocks_loop env opts (fst (sys_lseek env w 0 SEEK_SET)) 0), False)"
  by (subst passes_loop.simps)
    (cases "blocks_loop env opts (fst (sys_lseek env w 0 SEEK_SET)) 0"; simp add: Let_def)

lemma passes_loop_step:
  "i < loops \<Longrightarrow> snd (blocks_loop env opts (fst (sys_lseek env w 0 SEEK_SET)) 0) \<Longrightarrow>
   passes_loop env opts w i loops =
     passes_loop env opts (fst (blocks_loop env opts (fst (sys_lseek env w 0 SEEK_SET)) 0))
       (i + 1) loops"
  by (subst passes_loop.simps)
    (cases "blocks_loop env opts (fst (sys_lseek env w 0 SEEK_SET)) 0"; simp add: Let_def)

lemma passes_loop_frame:
  "heap_live (fst (passes_loop env opts w i loops)) = heap_live w \<and>
   fd_open (fst (passes_loop env opts w i loops)) = fd_open w"
proof (induction n \<equiv> "nat (loops - i)" arbitrary: w i)
  case 0
  then show ?case by (simp add: passes_loop_done)
next
  case (Suc n)
  then have i: "i < loops" and n: "n = nat (loops - (i + 1))" by simp_all
  let ?r = "blocks_loop env opts (fst (sys_lseek env w 0 SEEK_SET)) 0"
  show ?case
  proof (cases "snd ?r")
    case True
    then show ?thesis
      using Suc.hyps(1) [OF n, of "fst ?r"]
      by (simp add: passes_loop_step [OF i True] blocks_loop_frame sys_lseek_fields)
  next
    case False
    then show ?thesis
      by (simp add: passes_loop_abort [OF i False] blocks_loop_frame sys_lseek_fields)
  qed
qed

lemma passes_loop_all_ok:
  "(\<And>j. j < nat (loops - i) * unat (blocks opts) \<Longrightarrow> malloc_ok env (n_readin w + j)) \<Longrightarrow>
   snd (passes_loop env opts w i loops) \<and>
   n_readin (fst (passes_loop env opts w i loops)) =
     n_readin w + nat (loops - i) * unat (blocks opts) \<and>
   n_write (fst (passes_loop env opts w i loops)) =
     n_write w + 2 * (nat (loops - i) * unat (blocks opts)) \<and>
   n_lseek (fst (passes_loop env opts w i loops)) = n_lseek w + nat (loops - i)"
proof (induction n \<equiv> "nat (loops - i)" arbitrary: w i)
  case 0
  then show ?case by (simp add: passes_loop_done)
next
  case (Suc n)
  then have i: "i < loops" and n: "n = nat (loops - (i + 1))" by simp_all
  have split: "nat (loops - i) = Suc (nat (loops - (i + 1)))"
    using i by simp
  let ?w1 = "fst (sys_lseek env w 0 SEEK_SET)"
  let ?r = "blocks_loop env opts ?w1 0"
  have first: "malloc_ok env (n_readin ?w1 + j)" if "j < unat (blocks opts) - 0" for j
    using Suc.prems [of j] that by (simp add: sys_lseek_fields split)
  note inner = blocks_loop_all_ok [of opts 0 env ?w1, OF first]
  have ok: "snd ?r" using inner by simp
  have rd: "n_readin (fst ?r) = n_readin w + unat (blocks opts)"
    using inner by (simp add: sys_lseek_fields)
  have wr: "n_write (fst ?r) = n_write w + 2 * unat (blocks opts)"
    using inner by (simp add: sys_lseek_fields)
  have ls: "n_lseek (fst ?r) = Suc (n_lseek w)"
    by (simp add: blocks_loop_frame sys_lseek_fields)
  have rest: "malloc_ok env (n_readin (fst ?r) + j)"
    if "j < nat (loops - (i + 1)) * unat (blocks opts)" for j
    using Suc.prems [of "unat (blocks opts) + j"] that by (simp add: rd split add.assoc)
  show ?case
    using Suc.hyps(1) [OF n rest]
    by (simp add: passes_loop_step [OF i ok] rd wr ls split)
qed

lemma passes_loop_first_fail:
  "j < nat (loops - i) * unat (blocks opts) \<Longrightarrow>
   (\<And>m. m < j \<Longrightarrow> malloc_ok env (n_readin w + m)) \<Longrightarrow>
   \<not> malloc_ok env (n_readin w + j) \<Longrightarrow>
   \<not> snd (passes_loop env opts w i loops) \<and>
   n_readin (fst (passes_loop env opts w i loops)) = n_readin w + j + 1 \<and>
   n_write (fst (passes_loop env opts w i loops)) = n_write w + 2 * j + 1 \<and>
   n_lseek (fst (passes_loop env opts w i loops)) = n_lseek w + j div unat (blocks opts) + 1"
proof (induction n \<equiv> "nat (loops - i)" arbitrary: w i j)
  case 0
  then show ?case by simp
next
  case (Suc n)
  then have i: "i < loops" and n: "n = nat (loops - (i + 1))" by simp_all
  have split: "nat (loops - i) = Suc (nat (loops - (i + 1)))"
    using i by simp
  let ?B = "unat (blocks opts)"
  let ?w1 = "fst (sys_lseek env w 0 SEEK_SET)"
  let ?r = "blocks_loop env opts ?w1 0"
  have ls: "n_lseek (fst ?r) = Suc (n_lseek w)"
    by (simp add: blocks_loop_frame sys_lseek_fields)
  show ?case
  proof (cases "j < ?B")
    case True
    have a: "j < ?B - 0" using True by simp
    have b: "malloc_ok env (n_readin ?w1 + m)" if "m < j" for m
      using Suc.prems(2) [OF that] by (simp add: sys_lseek_fields)
    have c: "\<not> malloc_ok env (n_readin ?w1 + j)"
      using Suc.prems(3) by (simp add: sys_lseek_fields)
    note inner = blocks_loop_first_fail [OF a b c]
    have bad: "\<not> snd ?r" using inner by simp
    show ?thesis
      using inner True
      by (simp add: passes_loop_abort [OF i bad] ls sys_lseek_fields)
  next
    case False
    then have ge: "?B \<le> j" by simp
    have first: "malloc_ok env (n_readin ?w1 + m)" if "m < ?B - 0" for m
    proof -
      from that ge have "m < j" by simp
      from Suc.prems(2) [OF this] show ?thesis by (simp add: sys_lseek_fields)
    qed
    note inner = blocks_loop_all_ok [of opts 0 env ?w1, OF first]
    have ok: "snd ?r" using inner by simp
    have rd: "n_readin (fst ?r) = n_readin w + ?B"
      using inner by (simp add: sys_lseek_fields)
    have wr: "n_write (fst ?r) = n_write w + 2 * ?B"
      using inner by (simp add: sys_lseek_fields)
    have a: "j - ?B < nat (loops - (i + 1)) * ?B"
      using Suc.prems(1) ge by (simp add: split)
    have b: "malloc_ok env (n_readin (fst ?r) + m)" if "m < j - ?B" for m
    proof -
      from that have "?B + m < j" by simp
      from Suc.prems(2) [OF this] show ?thesis by (simp add: rd add.assoc)
    qed
    have c: "\<not> malloc_ok env (n_readin (fst ?r) + (j - ?B))"
      using Suc.prems(3) ge by (simp add: rd)
    have pos: "0 < ?B" using Suc.prems(1) by (cases "?B = 0") simp_all
    have dv: "j div ?B = Suc ((j - ?B) div ?B)"
      using ge pos by (simp add: le_div_geq)
    show ?thesis
      using Suc.hyps(1) [OF n a b c] ge
      by (simp add: passes_loop_step [OF i ok] rd wr ls dv)
  qed
qed

lemma passes_loop_length:
  assumes seek: "\<And>n. lseek_ok env n"
    and plan: "unat (blocks opts) * unat (block_len opts) \<le> length (fdata w)"
  shows "length (fdata (fst (passes_loop env opts w i loops))) = length (fdata w)"
  using plan
proof (induction n \<equiv> "nat (loops - i)" arbitrary: w i)
  case 0
  then show ?case by (simp add: passes_loop_done)
next
  case (Suc n)
  then have i: "i < loops" and n: "n = nat (loops - (i + 1))" by simp_all
  let ?w1 = "fst (sys_lseek env w 0 SEEK_SET)"
  let ?r = "blocks_loop env opts ?w1 0"
  have "fpos ?w1 + (unat (blocks opts) - 0) * unat (block_len opts) \<le> length (fdata ?w1)"
    using Suc.prems by (simp add: sys_lseek_rewind [OF seek] sys_lseek_fields)
  from blocks_loop_length [OF this]
  have len: "length (fdata (fst ?r)) = length (fdata w)"
    by (simp add: sys_lseek_fields)
  show ?case
  proof (cases "snd ?r")
    case True
    have "unat (blocks opts) * unat (block_len opts) \<le> length (fdata (fst ?r))"
      using Suc.prems by (simp add: len)
    from Suc.hyps(1) [OF n this] show ?thesis
      by (simp add: passes_loop_step [OF i True] len)
  next
    case False
    then show ?thesis
      by (simp add: passes_loop_abort [OF i False] len)
  qed
qed

section \<open>The planner and the two callers\<close>

lemma getblocks_env:
  "rlimit_data env' = rlimit_data env \<Longrightarrow> getblocks env' opts len = getblocks env opts len"
  by (simp add: getblocks_def Let_def)

lemma getblocks_config:
  "getblocks env opts len = Inr opts' \<Longrightarrow>
   verbose opts' = verbose opts \<and> recursive opts' = recursive opts \<and>
   interations opts' = interations opts \<and>
   safe opts' = (if safe opts = 0 \<and> rlimit_data env = None then 1 else safe opts)"
  by (auto simp add: getblocks_def Let_def split: if_splits option.splits)

lemma getblocks_covered:
  assumes "getblocks env opts len = Inr opts'"
  shows "unat (blocks opts') * unat (block_len opts') \<le> unat len"
proof -
  have dv: "unat b * unat (len div b) \<le> unat len" for b :: size_t
    by (simp add: unat_div)
  show ?thesis
    using assms dv
    by (auto simp add: getblocks_def Let_def split: if_splits option.splits)
qed




lemma word_one_le: "(1 \<le> (x::size_t)) = (x \<noteq> 0)"
  using word_le_sub1 by auto

lemma succ_wraps:
  assumes "len \<noteq> 0" and "B div len + 1 = 0"
  shows "len = 1 \<and> B = (- 1 :: size_t)"
proof -
  from assms(2) have m: "B div len = - 1" by (rule max_word_wrap)
  have "unat (B div len) \<le> unat B" by (simp add: unat_div)
  then have "- 1 \<le> B" by (simp add: word_le_nat_alt m)
  then have B: "B = - 1" by (simp add: word_order.extremum_unique)
  have "unat (- 1 :: size_t) div unat len = unat (- 1 :: size_t)"
    using m by (simp only: B unat_div [symmetric])
  moreover have "0 < unat (- 1 :: size_t)" by (simp add: unat_gt_0)
  ultimately have "unat len = 1"
    using div_eq_dividend_iff by blast
  then have "len = 1"
    by (metis unsigned_1 unsigned_word_eqI)
  with B show ?thesis by simp
qed

lemma getblocks_positive:
  assumes "safe opts = 0" and "rlimit_data env = Some B"
    and "len \<noteq> 0" and "\<not> (len = 1 \<and> B = - 1)"
  shows "\<exists>opts'. getblocks env opts len = Inr opts' \<and>
           1 \<le> blocks opts' \<and> 1 \<le> block_len opts'"
proof -
  have nz: "B div len + 1 \<noteq> 0" using succ_wraps assms(3,4) by blast
  show ?thesis
    using assms(1,2,3) nz by (simp add: getblocks_def Let_def word_one_le)
qed

lemma doshred_returns:
  "getblocks env opts len = Inr o1 \<Longrightarrow>
   doshred env opts w loops len =
     Inr (fst (passes_loop env o1 w 0 loops), o1,
          if snd (passes_loop env o1 w 0 loops) then 0 else - 1)"
  by (cases "passes_loop env o1 w 0 loops") (simp add: doshred_def)

lemma doshred_faults:
  "getblocks env opts len = Inl f \<Longrightarrow> doshred env opts w loops len = Inl f"
  by (simp add: doshred_def)

lemma doshred_length:
  assumes seek: "\<And>n. lseek_ok env n"
    and len: "unat len = length (fdata w)"
    and run: "doshred env opts w loops len = Inr (w', opts', rc)"
  shows "length (fdata w') = length (fdata w)"
proof (cases "getblocks env opts len")
  case (Inl f)
  with run show ?thesis by (simp add: doshred_faults)
next
  case (Inr o1)
  have "unat (blocks o1) * unat (block_len o1) \<le> length (fdata w)"
    using getblocks_covered [OF Inr] len by simp
  from passes_loop_length [OF seek this, of 0 loops] run
  show ?thesis by (auto simp add: doshred_returns [OF Inr])
qed

lemma getfildeslen_fdata:
  "fdata (fst (getfildeslen env w)) = fdata w"
  by (simp add: getfildeslen_def sys_lseek_def Let_def split: prod.splits)

lemma getfildeslen_result:
  "0 \<le> snd (getfildeslen env w) \<Longrightarrow>
   snd (getfildeslen env w) = int (length (fdata w)) \<and> length (fdata w) < 2 ^ 63"
  by (auto simp add: getfildeslen_def sys_lseek_def Let_def split: prod.splits if_splits)

lemma unat_file_length:
  "n < 2 ^ 63 \<Longrightarrow> unat (word_of_int (int n) :: size_t) = n"
  by (simp add: unat_of_nat)

lemma fileshred_length:
  assumes seek: "\<And>n. lseek_ok env n"
    and run: "fileshred env opts w = Inr (w', opts', rc)"
  shows "length (fdata w') = length (fdata w)"
proof (cases "open_ok env")
  case False
  with run show ?thesis by (simp add: fileshred_def sys_open_def)
next
  case True
  let ?w1 = "w\<lparr>fd_open := True, fpos := 0\<rparr>"
  let ?w2 = "fst (getfildeslen env ?w1)"
  let ?len = "snd (getfildeslen env ?w1)"
  have d2: "fdata ?w2 = fdata w" by (simp add: getfildeslen_fdata)
  show ?thesis
  proof (cases "?len < 0")
    case neg: True
    with run True d2 show ?thesis
      by (auto simp add: fileshred_def sys_open_def split: prod.splits)
  next
    case False
    then have "0 \<le> ?len" by simp
    from getfildeslen_result [OF this]
    have l: "?len = int (length (fdata w))" and b: "length (fdata w) < 2 ^ 63" by simp_all
    have u: "unat (word_of_int ?len :: size_t) = length (fdata ?w2)"
      using unat_file_length [OF b] by (simp add: l d2)
    obtain w3 o3 rc3 where
      r: "doshred env opts ?w2 3 (word_of_int ?len) = Inr (w3, o3, rc3)"
      and w': "w' = sys_close w3"
      using run True False
      by (auto simp add: fileshred_def sys_open_def split: prod.splits sum.splits if_splits)
    from doshred_length [OF seek u r] show ?thesis
      by (simp add: w' sys_close_def d2)
  qed
qed

lemma doshred_config:
  "doshred env opts w loops len = Inr (w', opts', rc) \<Longrightarrow> getblocks env opts len = Inr opts'"
  by (cases "getblocks env opts len")
     (auto simp add: doshred_faults doshred_returns)

lemma fileshred_config:
  assumes "fileshred env opts w = Inr (w', opts', rc)"
  shows "opts' = opts \<or> (\<exists>len. getblocks env opts len = Inr opts')"
  using assms
  by (auto simp add: fileshred_def sys_open_def split: prod.splits sum.splits if_splits
           dest: doshred_config)

lemma sys_write_null_fails:
  "c \<noteq> 0 \<Longrightarrow> sys_write env w None c = (w\<lparr>n_write := Suc (n_write w)\<rparr>, - 1)"
  by (simp add: sys_write_def Let_def)

lemma getblocks_empty_faults:
  "safe opts = 0 \<Longrightarrow> rlimit_data env = Some B \<Longrightarrow> getblocks env opts 0 = Inl DivByZero"
  by (simp add: getblocks_def Let_def)

lemma getblocks_wrap_faults:
  "safe opts = 0 \<Longrightarrow> rlimit_data env = Some (- 1) \<Longrightarrow> getblocks env opts 1 = Inl DivByZero"
  by (simp add: getblocks_def Let_def)

lemma doshred_pass_count:
  assumes plan: "getblocks env opts len = Inr o1"
    and bufs: "\<And>j. j < nat loops * unat (blocks o1) \<Longrightarrow> malloc_ok env (n_readin w + j)"
  shows "\<exists>w'. doshred env opts w loops len = Inr (w', o1, 0) \<and>
           n_lseek w' = n_lseek w + nat loops \<and>
           n_readin w' = n_readin w + nat loops * unat (blocks o1) \<and>
           n_write w' = n_write w + 2 * (nat loops * unat (blocks o1))"
proof -
  have "malloc_ok env (n_readin w + j)" if "j < nat (loops - 0) * unat (blocks o1)" for j
    using bufs [of j] that by simp
  from passes_loop_all_ok [of loops 0 o1 env w, OF this]
  show ?thesis by (simp add: doshred_returns [OF plan])
qed

lemma getfildeslen_fd_open:
  "fd_open (fst (getfildeslen env w)) = fd_open w"
  by (simp add: getfildeslen_def sys_lseek_def Let_def split: prod.splits)

lemma doshred_fd_open:
  "doshred env opts w loops len = Inr (w', opts', rc) \<Longrightarrow> fd_open w' = fd_open w"
  by (cases "getblocks env opts len")
     (auto simp add: doshred_faults doshred_returns passes_loop_frame)

lemma fileshred_probe_failure_leaks:
  assumes "open_ok env"
    and "snd (getfildeslen env (w\<lparr>fd_open := True, fpos := 0\<rparr>)) < 0"
  shows "fileshred env opts w =
           Inr (fst (getfildeslen env (w\<lparr>fd_open := True, fpos := 0\<rparr>)), opts, - 1) \<and>
         fd_open (fst (getfildeslen env (w\<lparr>fd_open := True, fpos := 0\<rparr>)))"
proof
  show "fileshred env opts w =
      Inr (fst (getfildeslen env (w\<lparr>fd_open := True, fpos := 0\<rparr>)), opts, - 1)"
    using assms
    by (cases "getfildeslen env (w\<lparr>fd_open := True, fpos := 0\<rparr>)")
       (simp add: fileshred_def sys_open_def)
  show "fd_open (fst (getfildeslen env (w\<lparr>fd_open := True, fpos := 0\<rparr>)))"
    by (simp add: getfildeslen_fd_open)
qed

lemma fileshred_closes_after_doshred:
  assumes "fileshred env opts w = Inr (w', opts', rc)"
    and "open_ok env"
    and "0 \<le> snd (getfildeslen env (w\<lparr>fd_open := True, fpos := 0\<rparr>))"
  shows "\<not> fd_open w'"
  using assms
  by (auto simp add: fileshred_def sys_open_def sys_close_def
           split: prod.splits sum.splits if_splits)

section \<open>The claims\<close>

subsection \<open>C1: a failed random buffer\<close>

text \<open>
  C1, as stated, fails on a short read. The random device delivers no byte at all where
  one was asked for, in every block of a one-byte file shredded in safe mode. \<open>readin\<close>
  tests only \<open>read(...) < 0\<close>, so it hands back the buffer as \<open>malloc\<close> left it (the
  byte \<open>0x55\<close>); \<open>doshred\<close> writes it, runs all three passes (three seeks, six
  \<open>write\<close> calls, three \<open>readin\<close> calls) and returns 0, not an error.
\<close>

theorem short_read_is_not_reported:
  "doshred (good_env\<lparr>urandom_read := (\<lambda>i. Some [])\<rparr>) (default_opts\<lparr>safe := 1\<rparr>)
     (file_world [0x41]\<lparr>fd_open := True\<rparr>) 3 1 =
     Inr (\<lparr>fdata = [0x55], fpos = 1, fd_open = True, heap_live = 0,
           n_lseek = 3, n_write = 6, n_readin = 3\<rparr>,
          \<lparr>blocks = 1, block_len = 1, safe = 1, verbose = 0, recursive = 0, interations = 3\<rparr>,
          0)"
  by code_simp

text \<open>
  C1, amended. \<open>doshred\<close> learns of a failed \<open>readin\<close> through a null pointer only, and
  \<open>readin\<close> returns one only when the buffer cannot be allocated. Let the \<open>j\<close>-th
  \<open>readin\<close> call of a run (counted from 0) be the first whose allocation fails, with
  \<open>j\<close> below \<open>loops * blocks\<close>. Then \<open>doshred\<close> returns -1, and it stops at once: it
  has made exactly \<open>j + 1\<close> \<open>readin\<close> calls, \<open>2 * j + 1\<close> \<open>write\<close> calls (two for
  each earlier block and the write from the null pointer that precedes the failing
  \<open>readin\<close>) and \<open>j div blocks + 1\<close> seeks, and no buffer is left allocated. A read
  that delivers \<open>bs\<close>, however short, is no failure: \<open>readin\<close> returns the buffer,
  its head overwritten by the bytes read.
\<close>

theorem null_buffer_aborts_pass:
  assumes plan: "getblocks env opts len = Inr o1"
    and j: "j < nat loops * unat (blocks o1)"
    and before: "\<And>m. m < j \<Longrightarrow> malloc_ok env (n_readin w + m)"
    and bad: "\<not> malloc_ok env (n_readin w + j)"
  shows "(\<exists>w'. doshred env opts w loops len = Inr (w', o1, - 1) \<and>
            n_readin w' = n_readin w + j + 1 \<and>
            n_write w' = n_write w + 2 * j + 1 \<and>
            n_lseek w' = n_lseek w + j div unat (blocks o1) + 1 \<and>
            heap_live w' = heap_live w) \<and>
         (malloc_ok env (n_readin v) \<and> urandom_open_ok env (n_readin v) \<and>
          urandom_read env (n_readin v) = Some bs \<longrightarrow>
            snd (readin env v n) =
              Some (take (unat n) bs @
                    drop (length (take (unat n) bs))
                      (fresh_buf (unat n) (malloc_junk env (n_readin v)))))"
proof
  have j0: "j < nat (loops - 0) * unat (blocks o1)" using j by simp
  note pl = passes_loop_first_fail [OF j0 before bad]
  show "\<exists>w'. doshred env opts w loops len = Inr (w', o1, - 1) \<and>
            n_readin w' = n_readin w + j + 1 \<and>
            n_write w' = n_write w + 2 * j + 1 \<and>
            n_lseek w' = n_lseek w + j div unat (blocks o1) + 1 \<and>
            heap_live w' = heap_live w"
    using pl by (simp add: doshred_returns [OF plan] passes_loop_frame)
next
  show "malloc_ok env (n_readin v) \<and> urandom_open_ok env (n_readin v) \<and>
          urandom_read env (n_readin v) = Some bs \<longrightarrow>
            snd (readin env v n) =
              Some (take (unat n) bs @
                    drop (length (take (unat n) bs))
                      (fresh_buf (unat n) (malloc_junk env (n_readin v))))"
    by (simp add: readin_def Let_def)
qed

text \<open>
  The amended C1 at a concrete run: four one-byte blocks per pass, the third allocation
  fails. The run ends with -1 after three \<open>readin\<close> calls, five \<open>write\<close> calls and one
  seek. A read of one byte where two were asked for returns the two-byte buffer.
\<close>

theorem null_buffer_aborts_pass_witness:
  "(\<exists>w'. doshred (good_env\<lparr>malloc_ok := (\<lambda>i. i \<noteq> 2), urandom_read := (\<lambda>i. Some [0x7F])\<rparr>)
            (default_opts\<lparr>safe := 1\<rparr>)
            (file_world [0x41, 0x42, 0x43, 0x44]\<lparr>fd_open := True\<rparr>) 3 4 =
          Inr (w', default_opts\<lparr>blocks := 4, block_len := 1, safe := 1\<rparr>, - 1) \<and>
        n_readin w' = 3 \<and> n_write w' = 5 \<and> n_lseek w' = 1 \<and> heap_live w' = 0) \<and>
   snd (readin (good_env\<lparr>malloc_ok := (\<lambda>i. i \<noteq> 2), urandom_read := (\<lambda>i. Some [0x7F])\<rparr>)
          (file_world []) 2) =
     Some [0x7F, 0x55]"
proof -
  let ?env = "good_env\<lparr>malloc_ok := (\<lambda>i. i \<noteq> 2), urandom_read := (\<lambda>i. Some [0x7F])\<rparr>"
  let ?opts = "default_opts\<lparr>safe := 1\<rparr>"
  let ?o1 = "default_opts\<lparr>blocks := 4, block_len := 1, safe := 1\<rparr>"
  let ?w = "file_world [0x41, 0x42, 0x43, 0x44]\<lparr>fd_open := True\<rparr>"
  have plan: "getblocks ?env ?opts 4 = Inr ?o1"
    by (simp add: getblocks_def default_opts_def)
  have j: "2 < nat 3 * unat (blocks ?o1)" by simp
  have before: "\<And>m. m < 2 \<Longrightarrow> malloc_ok ?env (n_readin ?w + m)"
    by (simp add: file_world_def)
  have bad: "\<not> malloc_ok ?env (n_readin ?w + 2)" by (simp add: file_world_def)
  note t = null_buffer_aborts_pass [of ?env ?opts 4 ?o1 2 3 ?w "file_world []" "[0x7F]" 2,
      OF plan j before bad]
  have a: "\<exists>w'. doshred ?env ?opts ?w 3 4 = Inr (w', ?o1, - 1) \<and>
        n_readin w' = 3 \<and> n_write w' = 5 \<and> n_lseek w' = 1 \<and> heap_live w' = 0"
    using t [THEN conjunct1] by (simp add: file_world_def numeral_3_eq_3)
  have b: "snd (readin ?env (file_world []) 2) = Some [0x7F, 0x55]"
    using t [THEN conjunct2]
    by (simp add: good_env_def file_world_def fresh_buf_def)
  from a b show ?thesis by blast
qed

subsection \<open>C2: the zero write\<close>

text \<open>
  C2 at its failing input, a two-byte file \<open>AB\<close> shredded in safe mode, one pass, on a
  system where every call succeeds that can. The first sub-step of a block is
  \<open>write(fildes, (void *) 0, block_len)\<close>: its buffer is the null pointer, so it
  returns -1, writes no zero byte and leaves the offset at 0. After the whole pass the
  file holds the two random bytes; of the four \<open>write\<close> calls only the two random
  ones wrote anything. (For every state and every count but 0, see
  \<open>sys_write_null_fails\<close>.)
\<close>

theorem zero_write_writes_nothing:
  "sys_write good_env (file_world [0x41, 0x42]\<lparr>fd_open := True\<rparr>) None 1 =
     (\<lparr>fdata = [0x41, 0x42], fpos = 0, fd_open = True, heap_live = 0,
       n_lseek = 0, n_write = 1, n_readin = 0\<rparr>, - 1) \<and>
   doshred good_env (default_opts\<lparr>safe := 1\<rparr>) (file_world [0x41, 0x42]\<lparr>fd_open := True\<rparr>) 1 2 =
     Inr (\<lparr>fdata = [0x7F, 0x7F], fpos = 2, fd_open = True, heap_live = 0,
           n_lseek = 1, n_write = 4, n_readin = 2\<rparr>,
          \<lparr>blocks = 2, block_len = 1, safe = 1, verbose = 0, recursive = 0, interations = 3\<rparr>,
          0)"
  by code_simp

subsection \<open>C3: the number of passes\<close>

text \<open>
  C3 at its failing input: \<open>interations = 1\<close> and a one-byte file. \<open>fileshred\<close> hands
  the literal 3 to \<open>doshred\<close>, so three passes run: six seeks (three of them in
  \<open>getfildeslen\<close>), six \<open>write\<close> calls and three \<open>readin\<close> calls, where one pass
  and one \<open>readin\<close> call were claimed. (\<open>doshred\<close> itself runs \<open>loops\<close> passes and
  calls \<open>readin\<close> \<open>loops * blocks\<close> times: \<open>doshred_pass_count\<close>.)
\<close>

theorem fileshred_ignores_interations:
  "fileshred good_env (default_opts\<lparr>interations := 1\<rparr>) (file_world [0x41]) =
     Inr (\<lparr>fdata = [0x7F], fpos = 1, fd_open = False, heap_live = 0,
           n_lseek = 6, n_write = 6, n_readin = 3\<rparr>,
          \<lparr>blocks = 1, block_len = 1, safe = 0, verbose = 0, recursive = 0, interations = 1\<rparr>,
          0)"
  by code_simp

subsection \<open>C4: the length of the file\<close>

text \<open>
  C4. When every seek on the target succeeds, as it does on a regular file, shredding
  leaves the length of the file as it was: for \<open>doshred\<close> with any number of passes,
  given the length of the file as \<open>len\<close>, and for \<open>fileshred\<close>. Writes may fail or
  fall short, the random device and the allocator may fail, in any pattern. Each pass
  starts at offset 0 and only the random writes move the offset, by at most
  \<open>block_len\<close> for each of the \<open>blocks\<close> blocks, and \<open>blocks * block_len\<close> never
  exceeds \<open>len\<close>.
\<close>

theorem shredding_preserves_length:
  assumes seek: "\<And>n. lseek_ok env n"
  shows "(unat len = length (fdata w) \<and> doshred env opts w loops len = Inr (w', opts', rc)
            \<longrightarrow> length (fdata w') = length (fdata w)) \<and>
         (fileshred env opts v = Inr (v', opts'', rc') \<longrightarrow> length (fdata v') = length (fdata v))"
  using doshred_length [OF seek] fileshred_length [OF seek] by blast

text \<open>
  C4 at concrete runs: a three-byte file, five passes of \<open>doshred\<close> and a whole
  \<open>fileshred\<close>; the file is three bytes long afterwards.
\<close>

theorem shredding_preserves_length_witness:
  "length (fdata (fst (projr (doshred good_env default_opts
       (file_world [0x41, 0x42, 0x43]\<lparr>fd_open := True\<rparr>) 5 3)))) = 3 \<and>
   length (fdata (fst (projr (fileshred good_env default_opts (file_world [0x41, 0x42, 0x43]))))) = 3"
proof -
  let ?w = "file_world [0x41, 0x42, 0x43]\<lparr>fd_open := True\<rparr>"
  let ?v = "file_world [0x41, 0x42, 0x43]"
  let ?o = "\<lparr>blocks = 1, block_len = 3, safe = 0, verbose = 0, recursive = 0, interations = 3\<rparr>"
  let ?w' = "\<lparr>fdata = [0x7F, 0x7F, 0x7F], fpos = 3, fd_open = True, heap_live = 0,
              n_lseek = 5, n_write = 10, n_readin = 5\<rparr>"
  let ?v' = "\<lparr>fdata = [0x7F, 0x7F, 0x7F], fpos = 3, fd_open = False, heap_live = 0,
              n_lseek = 6, n_write = 6, n_readin = 3\<rparr>"
  have seek: "\<And>n. lseek_ok good_env n" by (simp add: good_env_def)
  have len: "unat (3 :: size_t) = length (fdata ?w)" by (simp add: file_world_def)
  have d: "doshred good_env default_opts ?w 5 3 = Inr (?w', ?o, 0)" by code_simp
  have f: "fileshred good_env default_opts ?v = Inr (?v', ?o, 0)" by code_simp
  note t = shredding_preserves_length [OF seek, of 3 ?w default_opts 5 ?w' ?o 0 ?v ?v' ?o 0]
  have a: "length (fdata ?w') = length (fdata ?w)"
    using t [THEN conjunct1] len d by blast
  have b: "length (fdata ?v') = length (fdata ?v)"
    using t [THEN conjunct2] f by blast
  from a b show ?thesis unfolding d f by (simp add: file_world_def)
qed

subsection \<open>C5: the empty file\<close>

text \<open>
  C5 at its failing input: an empty file, the default options (\<open>safe = 0\<close>) and a
  memory limit that can be read. \<open>getblocks\<close> computes \<open>rlim_cur / len\<close> with
  \<open>len = 0\<close>: a division by zero, in \<open>getblocks\<close> alone and in a whole \<open>fileshred\<close>.
  No plan with \<open>blocks = 0\<close> is returned. (For every limit and all options with
  \<open>safe = 0\<close>: \<open>getblocks_empty_faults\<close>.)
\<close>

theorem getblocks_empty_file_fault:
  "getblocks good_env default_opts 0 = Inl DivByZero \<and>
   fileshred good_env default_opts (file_world []) = Inl DivByZero"
  by code_simp

subsection \<open>C6: the descriptor\<close>

text \<open>
  C6 at its failing input: the file opens and the first seek of \<open>getfildeslen\<close> fails.
  \<open>fileshred\<close> returns -1 and the descriptor is still open: the return after the
  failed length probe has no \<open>close\<close>, unlike the two returns below it
  (\<open>fileshred_probe_failure_leaks\<close>, \<open>fileshred_closes_after_doshred\<close>).
\<close>

theorem fileshred_leaks_descriptor:
  "fileshred (good_env\<lparr>lseek_ok := (\<lambda>i. False)\<rparr>) default_opts (file_world [0x41]) =
     Inr (\<lparr>fdata = [0x41], fpos = 0, fd_open = True, heap_live = 0,
           n_lseek = 1, n_write = 0, n_readin = 0\<rparr>, default_opts, - 1)"
  by code_simp

subsection \<open>C7: the safe plan\<close>

text \<open>
  C7. When \<open>safe\<close> is set or \<open>getrlimit\<close> fails, \<open>getblocks\<close> returns, for every
  length \<open>len\<close>, the plan \<open>blocks = len\<close>, \<open>block_len = 1\<close>; it cannot fault
  (\<open>safe\<close> is set to 1 on the way when it was 0).
\<close>

theorem getblocks_safe_plan:
  assumes "safe opts \<noteq> 0 \<or> rlimit_data env = None"
  shows "getblocks env opts len =
           Inr (opts\<lparr>blocks := len, block_len := 1,
                    safe := (if safe opts = 0 then 1 else safe opts)\<rparr>)"
  using assms by (auto simp add: getblocks_def Let_def)

text \<open>
  C7 at concrete inputs: a ten-byte file with \<open>safe = 1\<close>, and with \<open>safe = 0\<close> and a
  failing \<open>getrlimit\<close>.
\<close>

theorem getblocks_safe_plan_witness:
  "getblocks good_env (default_opts\<lparr>safe := 1\<rparr>) 10 =
     Inr \<lparr>blocks = 10, block_len = 1, safe = 1, verbose = 0, recursive = 0, interations = 3\<rparr> \<and>
   getblocks (good_env\<lparr>rlimit_data := None\<rparr>) default_opts 10 =
     Inr \<lparr>blocks = 10, block_len = 1, safe = 1, verbose = 0, recursive = 0, interations = 3\<rparr>"
proof -
  have a: "safe (default_opts\<lparr>safe := 1\<rparr>) \<noteq> 0 \<or> rlimit_data good_env = None"
    by (simp add: default_opts_def)
  have b: "safe default_opts \<noteq> 0 \<or> rlimit_data (good_env\<lparr>rlimit_data := None\<rparr>) = None"
    by simp
  show ?thesis
    using getblocks_safe_plan [OF a, of 10] getblocks_safe_plan [OF b, of 10]
    by (simp add: default_opts_def)
qed

subsection \<open>C8: the plan from a memory limit\<close>

text \<open>
  C8 at its failing input: a one-byte file and the memory limit \<open>2 ^ 64 - 1\<close> (what
  \<open>getrlimit\<close> reports for an unlimited data segment where \<open>RLIM_INFINITY\<close> is all
  ones). \<open>rlim_cur / len + 1\<close> wraps to 0, and \<open>len / blocks\<close> divides by zero. By
  \<open>getblocks_positive\<close> above this is the only pair \<open>len \<ge> 1\<close>, \<open>rlim_cur\<close> at
  which the claim fails.
\<close>

theorem getblocks_unlimited_fault:
  "getblocks (good_env\<lparr>rlimit_data := Some 0xFFFFFFFFFFFFFFFF\<rparr>) default_opts 1 = Inl DivByZero \<and>
   fileshred (good_env\<lparr>rlimit_data := Some 0xFFFFFFFFFFFFFFFF\<rparr>) default_opts (file_world [0x41])
     = Inl DivByZero"
  by code_simp

subsection \<open>C9: the configuration fields\<close>

text \<open>
  C9, as stated, fails: with \<open>safe = 0\<close> and a failing \<open>getrlimit\<close>, \<open>getblocks\<close>
  executes \<open>opts->safe = 1\<close>.
\<close>

theorem getblocks_sets_safe:
  "safe default_opts = 0 \<and>
   getblocks (good_env\<lparr>rlimit_data := None\<rparr>) default_opts 10 =
     Inr \<lparr>blocks = 10, block_len = 1, safe = 1, verbose = 0, recursive = 0, interations = 3\<rparr>"
  by code_simp

text \<open>
  C9, amended. \<open>getblocks\<close>, \<open>doshred\<close> and \<open>fileshred\<close> leave \<open>verbose\<close>,
  \<open>recursive\<close> and \<open>interations\<close> as they were. \<open>safe\<close> changes in one case only:
  when it was 0 and \<open>getrlimit\<close> fails, the planner sets it to 1. Of the operating
  system the planner reads nothing but the memory limit: two environments with the
  same limit give the same result.
\<close>

theorem config_fields_after_planning:
  "(getblocks env opts len = Inr o1 \<longrightarrow>
      verbose o1 = verbose opts \<and> recursive o1 = recursive opts \<and>
      interations o1 = interations opts \<and>
      safe o1 = (if safe opts = 0 \<and> rlimit_data env = None then 1 else safe opts)) \<and>
   (doshred env opts w loops len = Inr (w', o2, rc) \<longrightarrow>
      verbose o2 = verbose opts \<and> recursive o2 = recursive opts \<and>
      interations o2 = interations opts \<and>
      safe o2 = (if safe opts = 0 \<and> rlimit_data env = None then 1 else safe opts)) \<and>
   (fileshred env opts v = Inr (v', o3, rc') \<longrightarrow>
      verbose o3 = verbose opts \<and> recursive o3 = recursive opts \<and>
      interations o3 = interations opts \<and>
      (safe o3 = safe opts \<or> safe opts = 0 \<and> rlimit_data env = None \<and> safe o3 = 1)) \<and>
   (rlimit_data env' = rlimit_data env \<longrightarrow> getblocks env' opts len = getblocks env opts len)"
proof (intro conjI impI)
  assume "getblocks env opts len = Inr o1"
  from getblocks_config [OF this]
  show "verbose o1 = verbose opts" "recursive o1 = recursive opts"
    "interations o1 = interations opts"
    "safe o1 = (if safe opts = 0 \<and> rlimit_data env = None then 1 else safe opts)"
    by simp_all
next
  assume "doshred env opts w loops len = Inr (w', o2, rc)"
  from getblocks_config [OF doshred_config [OF this]]
  show "verbose o2 = verbose opts" "recursive o2 = recursive opts"
    "interations o2 = interations opts"
    "safe o2 = (if safe opts = 0 \<and> rlimit_data env = None then 1 else safe opts)"
    by simp_all
next
  assume run: "fileshred env opts v = Inr (v', o3, rc')"
  from fileshred_config [OF run]
  have c: "verbose o3 = verbose opts \<and> recursive o3 = recursive opts \<and>
      interations o3 = interations opts \<and>
      (safe o3 = safe opts \<or> safe opts = 0 \<and> rlimit_data env = None \<and> safe o3 = 1)"
  proof
    assume "o3 = opts" then show ?thesis by simp
  next
    assume "\<exists>n. getblocks env opts n = Inr o3"
    then obtain n where "getblocks env opts n = Inr o3" ..
    from getblocks_config [OF this] show ?thesis by (simp split: if_splits)
  qed
  from c show "verbose o3 = verbose opts" "recursive o3 = recursive opts"
    "interations o3 = interations opts"
    "safe o3 = safe opts \<or> safe opts = 0 \<and> rlimit_data env = None \<and> safe o3 = 1"
    by simp_all
next
  assume "rlimit_data env' = rlimit_data env"
  then show "getblocks env' opts len = getblocks env opts len" by (rule getblocks_env)
qed

text \<open>
  The amended C9 at concrete inputs: \<open>verbose = 1\<close> is kept and \<open>safe\<close> becomes 1
  when \<open>getrlimit\<close> fails; \<open>interations\<close> and \<open>safe\<close> are kept by \<open>doshred\<close> and
  \<open>fileshred\<close> when it succeeds.
\<close>

theorem config_fields_after_planning_witness:
  "verbose (projr (getblocks (good_env\<lparr>rlimit_data := None\<rparr>) (default_opts\<lparr>verbose := 1\<rparr>) 4)) = 1 \<and>
   safe (projr (getblocks (good_env\<lparr>rlimit_data := None\<rparr>) (default_opts\<lparr>verbose := 1\<rparr>) 4)) = 1 \<and>
   interations (fst (snd (projr (doshred good_env (default_opts\<lparr>verbose := 1\<rparr>)
      (file_world [0x41]\<lparr>fd_open := True\<rparr>) 3 1)))) = 3 \<and>
   safe (fst (snd (projr (fileshred good_env (default_opts\<lparr>verbose := 1\<rparr>)
      (file_world [0x41]))))) = 0 \<and>
   getblocks (good_env\<lparr>open_ok := False\<rparr>) default_opts 4 = getblocks good_env default_opts 4"
proof -
  let ?envn = "good_env\<lparr>rlimit_data := None\<rparr>"
  let ?opts = "default_opts\<lparr>verbose := 1\<rparr>"
  let ?o1 = "\<lparr>blocks = 4, block_len = 1, safe = 1, verbose = 1, recursive = 0, interations = 3\<rparr>"
  let ?o2 = "\<lparr>blocks = 1, block_len = 1, safe = 0, verbose = 1, recursive = 0, interations = 3\<rparr>"
  let ?w = "file_world [0x41]\<lparr>fd_open := True\<rparr>"
  let ?w' = "\<lparr>fdata = [0x7F], fpos = 1, fd_open = True, heap_live = 0,
              n_lseek = 3, n_write = 6, n_readin = 3\<rparr>"
  let ?v' = "\<lparr>fdata = [0x7F], fpos = 1, fd_open = False, heap_live = 0,
              n_lseek = 6, n_write = 6, n_readin = 3\<rparr>"
  have g: "getblocks ?envn ?opts 4 = Inr ?o1" by code_simp
  have d: "doshred good_env ?opts ?w 3 1 = Inr (?w', ?o2, 0)" by code_simp
  have f: "fileshred good_env ?opts (file_world [0x41]) = Inr (?v', ?o2, 0)" by code_simp
  have r: "rlimit_data (good_env\<lparr>open_ok := False\<rparr>) = rlimit_data good_env" by simp
  have a: "verbose ?o1 = verbose ?opts \<and> safe ?o1 = 1"
    using config_fields_after_planning [of ?envn ?opts 4 ?o1, THEN conjunct1] g
    by (simp add: default_opts_def)
  have b: "interations ?o2 = interations ?opts"
    using config_fields_after_planning [of good_env ?opts 1 _ ?w 3 ?w' ?o2 0,
        THEN conjunct2, THEN conjunct1] d
    by blast
  have c: "safe ?o2 = safe ?opts \<or> safe ?opts = 0 \<and> rlimit_data good_env = None \<and> safe ?o2 = 1"
    using config_fields_after_planning [of good_env ?opts _ _ _ _ _ _ _ "file_world [0x41]" ?v' ?o2 0,
        THEN conjunct2, THEN conjunct2, THEN conjunct1] f
    by blast
  have e: "getblocks (good_env\<lparr>open_ok := False\<rparr>) default_opts 4 = getblocks good_env default_opts 4"
    using config_fields_after_planning [of good_env default_opts 4 _ _ _ _ _ _ _ _ _ _
        "good_env\<lparr>open_ok := False\<rparr>",
        THEN conjunct2, THEN conjunct2, THEN conjunct2] r
    by blast
  from a b c e show ?thesis
    unfolding g d f by (simp add: default_opts_def)
qed

subsection \<open>C10: write and seek failures\<close>

text \<open>
  C10. Once the plan \<open>o1\<close> is made, if each of the \<open>loops * blocks\<close> \<open>readin\<close>
  calls gets its buffer, \<open>doshred\<close> returns 0 whatever the \<open>write\<close> calls
  (\<open>wr\<close>) and the seeks (\<open>sk\<close>) answer.
\<close>

theorem doshred_success_whatever_write_and_seek_do:
  assumes plan: "getblocks env opts len = Inr o1"
    and bufs: "\<And>j. j < nat loops * unat (blocks o1) \<Longrightarrow> malloc_ok env (n_readin w + j)"
  shows "\<exists>w'. doshred (env\<lparr>write_res := wr, lseek_ok := sk\<rparr>) opts w loops len = Inr (w', o1, 0)"
proof -
  let ?env = "env\<lparr>write_res := wr, lseek_ok := sk\<rparr>"
  have plan': "getblocks ?env opts len = Inr o1"
    using plan by (simp add: getblocks_env [of ?env env])
  have "malloc_ok ?env (n_readin w + j)" if "j < nat (loops - 0) * unat (blocks o1)" for j
    using bufs [of j] that by simp
  from passes_loop_all_ok [of loops 0 o1 ?env w, OF this]
  show ?thesis by (simp add: doshred_returns [OF plan'])
qed

text \<open>
  C10 at a concrete run: every \<open>write\<close> and every seek fails, three passes over a
  two-byte file, and \<open>doshred\<close> returns 0.
\<close>

theorem doshred_success_whatever_write_and_seek_do_witness:
  "\<exists>w'. doshred (good_env\<lparr>write_res := (\<lambda>i. None), lseek_ok := (\<lambda>i. False)\<rparr>)
           (default_opts\<lparr>safe := 1\<rparr>) (file_world [0x41, 0x42]\<lparr>fd_open := True\<rparr>) 3 2 =
         Inr (w', default_opts\<lparr>blocks := 2, block_len := 1, safe := 1\<rparr>, 0)"
proof -
  have plan: "getblocks good_env (default_opts\<lparr>safe := 1\<rparr>) 2 =
      Inr (default_opts\<lparr>blocks := 2, block_len := 1, safe := 1\<rparr>)"
    by (simp add: getblocks_def default_opts_def)
  have bufs: "\<And>j. j < nat 3 * unat (blocks (default_opts\<lparr>blocks := 2, block_len := 1, safe := 1\<rparr>))
      \<Longrightarrow> malloc_ok good_env (n_readin (file_world [0x41, 0x42]\<lparr>fd_open := True\<rparr>) + j)"
    by (simp add: good_env_def)
  show ?thesis
    by (rule doshred_success_whatever_write_and_seek_do [OF plan bufs])
qed

end
